theory Spec2Isabelle
  imports Main
begin

section \<open>Values, exceptions and the session object\<close>

text \<open>
  The development embeds the client-side transport of Pixel Soup: the class \<open>Pipe\<close> of
  \<open>frontend/test/test2.py\<close> (\<open>connect\<close>, \<open>login\<close>, \<open>await_response\<close>, \<open>transport\<close>) and
  the bridge loop \<open>networking\<close> with the render-loop method \<open>stream\<close> of
  \<open>frontend/views/gameview.py\<close>.

  Byte strings and the text of the handshake messages are both \<open>char list\<close>.
\<close>

type_synonym bytes = string

text \<open>The Python values that travel through the queues and the serializer.\<close>

datatype pyval =
    PNone
  | PBool bool
  | PInt int
  | PStr string
  | PList "pyval list"
  | PTuple "pyval list"

text \<open>
  The exceptions that the modelled code can meet. The first four are the subclasses of
  Python's \<open>ConnectionError\<close>; \<open>OSError\<close> stands for every other socket error.
\<close>

datatype exn =
    ConnectionRefusedError
  | ConnectionAbortedError
  | ConnectionResetError
  | BrokenPipeError
  | OSError
  | ValueError
  | IndexError
  | TypeError
  | UnicodeDecodeError
  | EOFError
  | UnpicklingError

fun is_ConnectionError :: "exn \<Rightarrow> bool" where
  "is_ConnectionError ConnectionRefusedError = True"
| "is_ConnectionError ConnectionAbortedError = True"
| "is_ConnectionError ConnectionResetError = True"
| "is_ConnectionError BrokenPipeError = True"
| "is_ConnectionError _ = False"

text \<open>
  \<open>Pipe.__init__\<close>: the fields of a session. The two sockets are not data of the model: what
  each socket call does is an input of the operation that makes the call.
\<close>

record pipe =
  server :: string
  port :: int
  connected :: bool
  username :: "string option"
  udp_password :: "int option"
  game_port :: "int option"

definition init_pipe :: "string \<Rightarrow> int \<Rightarrow> pipe" where
  "init_pipe srv prt =
     \<lparr>server = srv, port = prt, connected = False, username = None,
      udp_password = None, game_port = None\<rparr>"

section \<open>Python's split\<close>

text \<open>
  \<open>s.split(sep)\<close> for a non-empty separator: a scan from the left that cuts at every
  occurrence of \<open>sep\<close> and resumes behind it, so occurrences never overlap.
\<close>

fun split_from :: "'a list \<Rightarrow> 'a list \<Rightarrow> 'a list \<Rightarrow> 'a list list" where
  "split_from sep acc [] = [rev acc]"
| "split_from sep acc (x # xs) =
     (if sep \<noteq> [] \<and> take (length sep) (x # xs) = sep
      then rev acc # split_from sep [] (drop (length sep) (x # xs))
      else split_from sep (x # acc) xs)"

definition py_split :: "'a list \<Rightarrow> 'a list \<Rightarrow> 'a list list" where
  "py_split sep s = split_from sep [] s"

text \<open>\<open>sep in s\<close>: the separator occurs somewhere in \<open>s\<close>.\<close>

fun contains :: "'a list \<Rightarrow> 'a list \<Rightarrow> bool" where
  "contains sep [] = (sep = [])"
| "contains sep (x # xs) = (take (length sep) (x # xs) = sep \<or> contains sep xs)"

section \<open>The queues of the bridge\<close>

text \<open>
  A \<open>multiprocessing.Queue\<close> is a FIFO: \<open>put\<close> appends at the back, \<open>get\<close> removes the
  front. The head of the list is the oldest entry. \<open>get\<close> on an empty queue blocks, which is
  the value \<open>None\<close>.
\<close>

definition q_put :: "'a \<Rightarrow> 'a list \<Rightarrow> 'a list" where
  "q_put x q = q @ [x]"

fun q_get :: "'a list \<Rightarrow> ('a \<times> 'a list) option" where
  "q_get [] = None"
| "q_get (x # q) = Some (x, q)"

text \<open>
  \<open>for _ in range(k): forward.get()\<close>: \<open>k\<close> reads whose values are thrown away. The entries
  read are returned beside the rest of the queue.
\<close>

fun discard :: "nat \<Rightarrow> 'a list \<Rightarrow> ('a list \<times> 'a list) option" where
  "discard 0 q = Some ([], q)"
| "discard (Suc k) q =
     (case q_get q of
        None \<Rightarrow> None
      | Some (x, q') \<Rightarrow>
          (case discard k q' of
             None \<Rightarrow> None
           | Some (ds, r) \<Rightarrow> Some (x # ds, r)))"

text \<open>
  Lines 25 to 29 of \<open>networking\<close>: the depth is read once, \<open>range(items_no - 2)\<close> is empty
  when the difference is not positive, and one more entry is read as the update to send.
  The result is the entries discarded, the entry kept and the queue left behind.
\<close>

definition drain :: "'a list \<Rightarrow> ('a list \<times> 'a \<times> 'a list) option" where
  "drain q =
     (let items_no = int (length q) in
      case discard (nat (items_no - 2)) q of
        None \<Rightarrow> None
      | Some (ds, q1) \<Rightarrow>
          (case q_get q1 of
             None \<Rightarrow> None
           | Some (x, q2) \<Rightarrow> Some (ds, x, q2)))"

section \<open>The session client\<close>

text \<open>
  \<open>Pipe.connect\<close>. The argument \<open>conn\<close> is what \<open>self.tcp.connect\<close> does: \<open>None\<close> when it
  returns, \<open>Some e\<close> when it raises \<open>e\<close>. Only a \<open>ConnectionError\<close> is caught. The flag
  \<open>connected\<close> is not read.
\<close>

definition connect :: "exn option \<Rightarrow> pipe \<Rightarrow> pipe \<times> (exn + bool)" where
  "connect conn p =
     (case conn of
        None \<Rightarrow> (p\<lparr>connected := True\<rparr>, Inr True)
      | Some e \<Rightarrow> if is_ConnectionError e then (p, Inr False) else (p, Inl e))"

text \<open>What the stream socket does during one \<open>login\<close>: connect, send and recv.\<close>

record tcp_env =
  on_connect :: "exn option"
  on_send :: "exn option"
  on_recv :: "exn + bytes"

text \<open>\<open>str.encode()\<close>, the UTF-8 encoder on code points below 256.\<close>

definition utf8 :: "string \<Rightarrow> bytes" where
  "utf8 s =
     concat (map (\<lambda>c. let n = (of_char c :: nat) in
                       if n < 128 then [c] else [char_of (192 + n div 64), char_of (128 + n mod 64)]) s)"

text \<open>The message \<open>f"{entry},,{room_name},,{username}".encode()\<close>.\<close>

definition login_message :: "string \<Rightarrow> string \<Rightarrow> string \<Rightarrow> bytes" where
  "login_message entry room_name user = utf8 (entry @ '',,'' @ room_name @ '',,'' @ user)"

text \<open>Lines 34 to 52 of \<open>login\<close>: the reply is compared with the tokens of the mode.\<close>

definition login_reply :: "string \<Rightarrow> bytes \<Rightarrow> bool \<times> string" where
  "login_reply entry response =
     (if entry = ''create'' then
        (if response = ''Rename'' then (False, ''rename'')
         else if response = ''Done'' then (True, ''created'')
         else (False, ''invalid''))
      else
        (if response = ''Missing'' then (False, ''missing'')
         else if response = ''Full'' then (False, ''full'')
         else (True, ''joined'')))"

text \<open>
  \<open>Pipe.login\<close>. The result is the session, the messages handed to \<open>send\<close> and what the call
  returns or raises. \<open>recv(100)\<close> gives at most 100 bytes.
\<close>

definition login ::
  "tcp_env \<Rightarrow> string \<Rightarrow> string \<Rightarrow> string \<Rightarrow> pipe \<Rightarrow> pipe \<times> bytes list \<times> (exn + bool \<times> string)" where
  "login env entry room_name user p0 =
     (let p = p0\<lparr>username := Some user\<rparr> in
      case (if \<not> connected p then connect (on_connect env) p else (p, Inr True)) of
        (p1, Inl e) \<Rightarrow> (p1, [], Inl e)
      | (p1, Inr success) \<Rightarrow>
          if \<not> success then (p1, [], Inr (False, ''error in connection''))
          else
            (case on_send env of
               Some e \<Rightarrow> (p1, [], Inl e)
             | None \<Rightarrow>
                 (case on_recv env of
                    Inl e \<Rightarrow> (p1, [login_message entry room_name user], Inl e)
                  | Inr data \<Rightarrow>
                      (p1, [login_message entry room_name user],
                       Inr (login_reply entry (take 100 data))))))"

text \<open>
  \<open>bytes.decode()\<close>, the UTF-8 decoder. A character of the model is a code point below
  256: a byte below 128 stands for itself, and the two-byte sequences led by \<open>0xC2\<close> and
  \<open>0xC3\<close> give the code points from 128 to 255. Every other byte sequence is either
  malformed or a code point that the model has no character for, and is reported as a
  decoding failure.
\<close>

fun py_decode :: "bytes \<Rightarrow> exn + string" where
  "py_decode [] = Inr []"
| "py_decode (c # cs) =
     (let n = (of_char c :: nat) in
      if n < 128 then
        (case py_decode cs of Inl e \<Rightarrow> Inl e | Inr s \<Rightarrow> Inr (c # s))
      else if n = 194 \<or> n = 195 then
        (case cs of
           [] \<Rightarrow> Inl UnicodeDecodeError
         | d # ds \<Rightarrow>
             (let m = (of_char d :: nat) in
              if 128 \<le> m \<and> m < 192 then
                (case py_decode ds of
                   Inl e \<Rightarrow> Inl e
                 | Inr s \<Rightarrow> Inr (char_of ((n - 192) * 64 + (m - 128)) # s))
              else Inl UnicodeDecodeError))
      else Inl UnicodeDecodeError)"

text \<open>
  \<open>int(s)\<close> on a string, base ten, as CPython converts it: the code points U+0085 and
  U+00A0 count as a blank, the white space that is dropped around the number is the
  blank and the characters 9 to 13, one sign is allowed, the digits may be grouped by
  single underscores, and anything else is a \<open>ValueError\<close>. A field of the handshake has at
  most 1000 characters, fewer than the digits at which \<open>int\<close> refuses a conversion.
\<close>

definition is_space :: "char \<Rightarrow> bool" where
  "is_space c =
     (let n = (of_char c :: nat) in (9 \<le> n \<and> n \<le> 13) \<or> n = 32 \<or> n = 133 \<or> n = 160)"

definition is_digit :: "char \<Rightarrow> bool" where
  "is_digit c = (let n = (of_char c :: nat) in 48 \<le> n \<and> n \<le> 57)"

definition strip :: "string \<Rightarrow> string" where
  "strip s = rev (dropWhile is_space (rev (dropWhile is_space s)))"

fun py_digits :: "nat \<Rightarrow> string \<Rightarrow> nat option" where
  "py_digits acc [] = Some acc"
| "py_digits acc (c # cs) =
     (if is_digit c then py_digits (10 * acc + (of_char c - 48)) cs
      else if c = CHR ''_'' then
        (case cs of
           [] \<Rightarrow> None
         | d # _ \<Rightarrow> if is_digit d then py_digits acc cs else None)
      else None)"

definition py_int :: "string \<Rightarrow> exn + int" where
  "py_int str =
     (let s = strip str;
          (neg, body) =
            (case s of
               [] \<Rightarrow> (False, s)
             | c # r \<Rightarrow>
                 if c = CHR ''-'' then (True, r)
                 else if c = CHR ''+'' then (False, r)
                 else (False, s))
      in case body of
           [] \<Rightarrow> Inl ValueError
         | c # _ \<Rightarrow>
             if \<not> is_digit c then Inl ValueError
             else
               (case py_digits 0 body of
                  None \<Rightarrow> Inl ValueError
                | Some n \<Rightarrow> Inr (if neg then - int n else int n)))"

text \<open>\<open>xs[i]\<close> for an index that is not negative.\<close>

definition py_index :: "'a list \<Rightarrow> nat \<Rightarrow> exn + 'a" where
  "py_index xs i = (if i < length xs then Inr (xs ! i) else Inl IndexError)"

text \<open>
  The body of the \<open>try\<close> of \<open>await_response\<close>. The argument is what \<open>recv(1000)\<close> does. The
  port is assigned before the third field is read, so a failure on the third field leaves
  the port set.
\<close>

definition await_body :: "(exn + bytes) \<Rightarrow> pipe \<Rightarrow> pipe \<times> (exn + pyval list)" where
  "await_body rcv p =
     (case rcv of
        Inl e \<Rightarrow> (p, Inl e)
      | Inr raw \<Rightarrow>
          (case py_decode (take 1000 raw) of
             Inl e \<Rightarrow> (p, Inl e)
           | Inr text \<Rightarrow>
               (let data = py_split '',,'' text in
                if hd data = ''Start'' then
                  (case py_index data 1 of
                     Inl e \<Rightarrow> (p, Inl e)
                   | Inr f1 \<Rightarrow>
                       (case py_int f1 of
                          Inl e \<Rightarrow> (p, Inl e)
                        | Inr gp \<Rightarrow>
                            (let p1 = p\<lparr>game_port := Some gp\<rparr> in
                             case py_index data 2 of
                               Inl e \<Rightarrow> (p1, Inl e)
                             | Inr f2 \<Rightarrow>
                                 (case py_int f2 of
                                    Inl e \<Rightarrow> (p1, Inl e)
                                  | Inr pw \<Rightarrow>
                                      (p1\<lparr>udp_password := Some pw\<rparr>, Inr (map PStr data))))))
                else (p, Inr (map PStr data)))))"

text \<open>
  \<open>Pipe.await_response\<close>: the body under \<open>except ConnectionAbortedError: return [False]\<close>.
  Every other exception leaves the method.
\<close>

definition await_response :: "(exn + bytes) \<Rightarrow> pipe \<Rightarrow> pipe \<times> (exn + pyval list)" where
  "await_response rcv p =
     (case await_body rcv p of
        (p1, Inl e) \<Rightarrow>
          if e = ConnectionAbortedError then (p1, Inr [PBool False]) else (p1, Inl e)
      | (p1, Inr data) \<Rightarrow> (p1, Inr data))"

section \<open>The datagram transport\<close>

definition OUTER_DELIM :: bytes where
  "OUTER_DELIM = ''||||''"

definition INNER_DELIM :: bytes where
  "INNER_DELIM = ''||''"

text \<open>What the datagram socket does during one \<open>transport\<close>: \<open>sendto\<close> and \<open>recvfrom\<close>.\<close>

record udp_env =
  on_sendto :: "exn option"
  on_recvfrom :: "exn + bytes"

definition of_int_opt :: "int option \<Rightarrow> pyval" where
  "of_int_opt x = (case x of None \<Rightarrow> PNone | Some i \<Rightarrow> PInt i)"

definition of_str_opt :: "string option \<Rightarrow> pyval" where
  "of_str_opt x = (case x of None \<Rightarrow> PNone | Some s \<Rightarrow> PStr s)"

text \<open>Line 69: \<open>[self.udp_password, self.username] + game_data\<close>.\<close>

definition envelope :: "pipe \<Rightarrow> pyval list \<Rightarrow> pyval" where
  "envelope p game_data = PList ([of_int_opt (udp_password p), of_str_opt (username p)] @ game_data)"

text \<open>
  Line 70: the serialized envelope followed by the outer delimiter. The serializer
  \<open>pickle.dumps\<close> and its inverse \<open>pickle.loads\<close> belong to the standard library; the
  transport takes them as the parameters \<open>dumps\<close> and \<open>loads\<close>.
\<close>

definition frame :: "(pyval \<Rightarrow> bytes) \<Rightarrow> pipe \<Rightarrow> pyval list \<Rightarrow> bytes" where
  "frame dumps p game_data = dumps (envelope p game_data) @ OUTER_DELIM"

text \<open>
  Lines 75 to 77 without \<open>loads\<close>: the datagram is split at the outer delimiter, and when
  that gives more than one part the first part is split at the inner delimiter.
\<close>

definition unpack :: "bytes \<Rightarrow> bytes list option" where
  "unpack data =
     (let parts = py_split OUTER_DELIM data in
      if length parts > 1 then Some (py_split INNER_DELIM (hd parts)) else None)"

text \<open>\<open>[loads(game) for game in data]\<close>: from the left, the first failure leaves the loop.\<close>

fun load_all :: "(bytes \<Rightarrow> exn + pyval) \<Rightarrow> bytes list \<Rightarrow> exn + pyval list" where
  "load_all loads [] = Inr []"
| "load_all loads (g # gs) =
     (case loads g of
        Inl e \<Rightarrow> Inl e
      | Inr v \<Rightarrow>
          (case load_all loads gs of
             Inl e \<Rightarrow> Inl e
           | Inr vs \<Rightarrow> Inr (v # vs)))"

text \<open>Lines 74 to 83: what \<open>transport\<close> makes of the datagram received.\<close>

definition receive :: "(bytes \<Rightarrow> exn + pyval) \<Rightarrow> bytes \<Rightarrow> exn + bool \<times> pyval list option" where
  "receive loads data =
     (case unpack data of
        Some games \<Rightarrow>
          (case load_all loads games of
             Inl e \<Rightarrow> Inl e
           | Inr vs \<Rightarrow> Inr (True, Some vs))
      | None \<Rightarrow> Inr (False, None))"

text \<open>
  \<open>Pipe.transport\<close>. The result is the datagrams handed to \<open>sendto\<close> and what the call
  returns or raises. \<open>recvfrom(2000)\<close> gives at most 2000 bytes of the datagram.
\<close>

definition transport ::
  "(pyval \<Rightarrow> bytes) \<Rightarrow> (bytes \<Rightarrow> exn + pyval) \<Rightarrow> udp_env \<Rightarrow> pipe \<Rightarrow> pyval list
     \<Rightarrow> bytes list \<times> (exn + bool \<times> pyval list option)" where
  "transport dumps loads env p game_data =
     (case on_sendto env of
        Some e \<Rightarrow> ([], Inl e)
      | None \<Rightarrow>
          (case on_recvfrom env of
             Inl e \<Rightarrow> ([frame dumps p game_data], Inl e)
           | Inr data \<Rightarrow> ([frame dumps p game_data], receive loads (take 2000 data))))"

section \<open>The bridge loop and the render loop\<close>

text \<open>
  The state shared by \<open>networking\<close> and \<open>GameView.stream\<close>: the queue \<open>forward\<close> of updates to
  send, the queue \<open>feedback\<close> of results of \<open>transport\<close>, and the datagrams sent so far.
\<close>

record bridge =
  forward :: "pyval list"
  feedback :: "(bool \<times> pyval list option) list"
  wire :: "bytes list"

text \<open>\<open>list(x)\<close> on a value taken from the queue.\<close>

fun py_list :: "pyval \<Rightarrow> exn + pyval list" where
  "py_list (PTuple xs) = Inr xs"
| "py_list (PList xs) = Inr xs"
| "py_list (PStr s) = Inr (map (\<lambda>c. PStr [c]) s)"
| "py_list _ = Inl TypeError"

text \<open>
  Where the loop \<open>while True\<close> of \<open>networking\<close> is after some cycles: still running, waiting
  in \<open>forward.get()\<close> on an empty queue, or left by an exception.
\<close>

datatype loop_state =
    Running bridge
  | Blocked bridge
  | Raised exn bridge

fun bridge_of :: "loop_state \<Rightarrow> bridge" where
  "bridge_of (Running b) = b"
| "bridge_of (Blocked b) = b"
| "bridge_of (Raised e b) = b"

text \<open>One pass through the body of the loop, lines 25 to 30.\<close>

definition networking_cycle ::
  "(pyval \<Rightarrow> bytes) \<Rightarrow> (bytes \<Rightarrow> exn + pyval) \<Rightarrow> pipe \<Rightarrow> udp_env \<Rightarrow> bridge \<Rightarrow> loop_state" where
  "networking_cycle dumps loads udp env b =
     (case drain (forward b) of
        None \<Rightarrow> Blocked b
      | Some (ds, x, q) \<Rightarrow>
          (let b1 = b\<lparr>forward := q\<rparr> in
           case py_list x of
             Inl e \<Rightarrow> Raised e b1
           | Inr data \<Rightarrow>
               (case transport dumps loads env udp data of
                  (sent, Inl e) \<Rightarrow> Raised e (b1\<lparr>wire := wire b1 @ sent\<rparr>)
                | (sent, Inr r) \<Rightarrow>
                    Running (b1\<lparr>feedback := q_put r (feedback b1), wire := wire b1 @ sent\<rparr>))))"

text \<open>
  \<open>networking\<close> over the cycles whose socket behaviour is listed: the loop has no exit of its
  own, so after the last listed cycle it is still running.
\<close>

fun networking ::
  "(pyval \<Rightarrow> bytes) \<Rightarrow> (bytes \<Rightarrow> exn + pyval) \<Rightarrow> pipe \<Rightarrow> udp_env list \<Rightarrow> bridge \<Rightarrow> loop_state" where
  "networking dumps loads udp [] b = Running b"
| "networking dumps loads udp (env # envs) b =
     (case networking_cycle dumps loads udp env b of
        Running b' \<Rightarrow> networking dumps loads udp envs b'
      | Blocked b' \<Rightarrow> Blocked b'
      | Raised e b' \<Rightarrow> Raised e b')"

text \<open>
  Lines 255 to 257 of \<open>GameView.stream\<close>: the position is put on \<open>forward\<close>, and when
  \<open>feedback\<close> is not empty one result is taken from it. The result taken is returned; what
  the method then draws from it is outside the transport.
\<close>

definition stream :: "pyval \<Rightarrow> bridge \<Rightarrow> bridge \<times> (bool \<times> pyval list option) option" where
  "stream position b =
     (let b1 = b\<lparr>forward := q_put position (forward b)\<rparr> in
      case q_get (feedback b1) of
        None \<Rightarrow> (b1, None)
      | Some (data, fb) \<Rightarrow> (b1\<lparr>feedback := fb\<rparr>, Some data))"

section \<open>The serializer\<close>

text \<open>
  \<open>pickle.dumps\<close> and \<open>pickle.loads\<close> are code of Python's standard library, not of the
  repository, so \<open>transport\<close> above takes them as parameters. To run the transport on
  concrete values, this section models protocol 4 of CPython's pickle (the default from
  Python 3.8 on) for the values of \<open>pyval\<close>. \<open>pk_dumps\<close> gives the bytes that \<open>dumps\<close>
  writes for a value whose strings, lists and tuples are distinct objects (no back
  reference is written) and whose pickle stays in one frame, below 64 KiB.
\<close>

text \<open>Little-endian numbers of a given width, unsigned and in two's complement.\<close>

fun le_bytes :: "nat \<Rightarrow> nat \<Rightarrow> bytes" where
  "le_bytes 0 v = []"
| "le_bytes (Suc n) v = char_of (v mod 256) # le_bytes n (v div 256)"

fun le_nat :: "bytes \<Rightarrow> nat" where
  "le_nat [] = 0"
| "le_nat (c # cs) = of_char c + 256 * le_nat cs"

definition le_int :: "bytes \<Rightarrow> int" where
  "le_int bs =
     (let v = int (le_nat bs); n = length bs in
      if 0 < n \<and> 2 ^ (8 * n - 1) \<le> v then v - 2 ^ (8 * n) else v)"

text \<open>The number of bits of a natural number, and the bytes a long integer takes.\<close>

fun bit_len :: "nat \<Rightarrow> nat" where
  "bit_len n = (if n = 0 then 0 else Suc (bit_len (n div 2)))"

declare bit_len.simps [simp del]

definition long_nbytes :: "int \<Rightarrow> nat" where
  "long_nbytes i = bit_len (if 0 \<le> i then nat i else nat (- i - 1)) div 8 + 1"

text \<open>\<open>save_long\<close>: \<open>BININT1\<close>, \<open>BININT2\<close>, \<open>BININT\<close>, and \<open>LONG1\<close> or \<open>LONG4\<close> outside 32 bits.\<close>

definition pk_int :: "int \<Rightarrow> bytes" where
  "pk_int i =
     (if 0 \<le> i \<and> i < 256 then CHR ''K'' # le_bytes 1 (nat i)
      else if 0 \<le> i \<and> i < 65536 then CHR ''M'' # le_bytes 2 (nat i)
      else if - 2147483648 \<le> i \<and> i < 2147483648 then CHR ''J'' # le_bytes 4 (nat (i mod 2 ^ 32))
      else
        (let n = long_nbytes i; body = le_bytes n (nat (i mod 2 ^ (8 * n))) in
         if n < 256 then CHR 0x8A # le_bytes 1 n @ body else CHR 0x8B # le_bytes 4 n @ body))"

text \<open>A string: its length, its UTF-8 bytes as they are, and \<open>MEMOIZE\<close>.\<close>

definition pk_str :: "string \<Rightarrow> bytes" where
  "pk_str s =
     (let u = utf8 s; n = length u in
      (if n < 256 then CHR 0x8C # le_bytes 1 n
       else if n < 4294967296 then CHR ''X'' # le_bytes 4 n
       else CHR 0x8D # le_bytes 8 n) @ u @ [CHR 0x94])"


text \<open>The items of a list of two or more, in batches of 1000 between \<open>MARK\<close> and \<open>APPENDS\<close>.\<close>

fun batches :: "bytes list \<Rightarrow> bytes" where
  "batches items =
     (if items = [] then []
      else CHR ''('' # concat (take 1000 items) @ CHR ''e'' # batches (drop 1000 items))"

declare batches.simps [simp del]

fun pk_save :: "pyval \<Rightarrow> bytes" where
  "pk_save PNone = ''N''"
| "pk_save (PBool b) = [if b then CHR 0x88 else CHR 0x89]"
| "pk_save (PInt i) = pk_int i"
| "pk_save (PStr s) = pk_str s"
| "pk_save (PList xs) =
     CHR '']'' # CHR 0x94 #
       (case xs of
          [] \<Rightarrow> []
        | [x] \<Rightarrow> pk_save x @ ''a''
        | _ \<Rightarrow> batches (map pk_save xs))"
| "pk_save (PTuple xs) =
     (case xs of
        [] \<Rightarrow> '')''
      | [a] \<Rightarrow> pk_save a @ [CHR 0x85, CHR 0x94]
      | [a, b] \<Rightarrow> pk_save a @ pk_save b @ [CHR 0x86, CHR 0x94]
      | [a, b, c] \<Rightarrow> pk_save a @ pk_save b @ pk_save c @ [CHR 0x87, CHR 0x94]
      | _ \<Rightarrow> CHR ''('' # concat (map pk_save xs) @ [CHR ''t'', CHR 0x94])"

text \<open>The header, and a frame around a body of four bytes or more.\<close>

definition pk_dumps :: "pyval \<Rightarrow> bytes" where
  "pk_dumps v =
     (let body = pk_save v @ ''.'' in
      [CHR 0x80, CHR 0x04] @
      (if 4 \<le> length body then CHR 0x95 # le_bytes 8 (length body) @ body else body))"

text \<open>
  \<open>pk_loads\<close> runs the opcodes that \<open>pk_dumps\<close> writes, on a stack of values and marks. The
  input ending where an opcode is due is an \<open>EOFError\<close>; a missing operand, a stack that
  the opcode cannot use, and an opcode outside this fragment are an \<open>UnpicklingError\<close>.
\<close>

datatype item = Val pyval | Mark

fun pop_mark :: "pyval list \<Rightarrow> item list \<Rightarrow> (pyval list \<times> item list) option" where
  "pop_mark acc [] = None"
| "pop_mark acc (Mark # st) = Some (acc, st)"
| "pop_mark acc (Val v # st) = pop_mark (v # acc) st"

datatype step = Halt pyval | Next "item list" nat

definition operand :: "nat \<Rightarrow> nat \<Rightarrow> bytes \<Rightarrow> bytes option" where
  "operand off n bs = (if length bs < off + n then None else Some (take n (drop off bs)))"

definition push_int :: "item list \<Rightarrow> bool \<Rightarrow> nat \<Rightarrow> bytes \<Rightarrow> exn + step" where
  "push_int st signed n bs =
     (case operand 0 n bs of
        None \<Rightarrow> Inl UnpicklingError
      | Some a \<Rightarrow> Inr (Next (Val (PInt (if signed then le_int a else int (le_nat a))) # st) n))"

definition push_long :: "item list \<Rightarrow> nat \<Rightarrow> bytes \<Rightarrow> exn + step" where
  "push_long st k bs =
     (case operand 0 k bs of
        None \<Rightarrow> Inl UnpicklingError
      | Some a \<Rightarrow>
          (case operand k (le_nat a) bs of
             None \<Rightarrow> Inl UnpicklingError
           | Some b \<Rightarrow> Inr (Next (Val (PInt (le_int b)) # st) (k + le_nat a))))"

definition push_str :: "item list \<Rightarrow> nat \<Rightarrow> bytes \<Rightarrow> exn + step" where
  "push_str st k bs =
     (case operand 0 k bs of
        None \<Rightarrow> Inl UnpicklingError
      | Some a \<Rightarrow>
          (case operand k (le_nat a) bs of
             None \<Rightarrow> Inl UnpicklingError
           | Some u \<Rightarrow>
               (case py_decode u of
                  Inl e \<Rightarrow> Inl e
                | Inr s \<Rightarrow> Inr (Next (Val (PStr s) # st) (k + le_nat a)))))"

definition pk_step :: "item list \<Rightarrow> char \<Rightarrow> bytes \<Rightarrow> exn + step" where
  "pk_step st c bs =
     (if c = CHR ''.'' then
        (case st of Val v # _ \<Rightarrow> Inr (Halt v) | _ \<Rightarrow> Inl UnpicklingError)
      else if c = CHR 0x80 then
        (case operand 0 1 bs of
           None \<Rightarrow> Inl UnpicklingError
         | Some a \<Rightarrow> if le_nat a \<le> 5 then Inr (Next st 1) else Inl ValueError)
      else if c = CHR 0x95 then
        (case operand 0 8 bs of
           None \<Rightarrow> Inl UnpicklingError
         | Some a \<Rightarrow>
             (case operand 8 (le_nat a) bs of
                None \<Rightarrow> Inl UnpicklingError
              | Some _ \<Rightarrow> Inr (Next st 8)))
      else if c = CHR 0x94 then
        (case st of Val v # _ \<Rightarrow> Inr (Next st 0) | _ \<Rightarrow> Inl UnpicklingError)
      else if c = CHR '']'' then Inr (Next (Val (PList []) # st) 0)
      else if c = CHR '')'' then Inr (Next (Val (PTuple []) # st) 0)
      else if c = CHR ''('' then Inr (Next (Mark # st) 0)
      else if c = CHR ''N'' then Inr (Next (Val PNone # st) 0)
      else if c = CHR 0x88 then Inr (Next (Val (PBool True) # st) 0)
      else if c = CHR 0x89 then Inr (Next (Val (PBool False) # st) 0)
      else if c = CHR ''K'' then push_int st False 1 bs
      else if c = CHR ''M'' then push_int st False 2 bs
      else if c = CHR ''J'' then push_int st True 4 bs
      else if c = CHR 0x8A then push_long st 1 bs
      else if c = CHR 0x8B then push_long st 4 bs
      else if c = CHR 0x8C then push_str st 1 bs
      else if c = CHR ''X'' then push_str st 4 bs
      else if c = CHR 0x8D then push_str st 8 bs
      else if c = CHR ''a'' then
        (case st of
           Val x # Val (PList xs) # st' \<Rightarrow> Inr (Next (Val (PList (xs @ [x])) # st') 0)
         | _ \<Rightarrow> Inl UnpicklingError)
      else if c = CHR ''e'' then
        (case pop_mark [] st of
           Some (vs, Val (PList xs) # st') \<Rightarrow> Inr (Next (Val (PList (xs @ vs)) # st') 0)
         | _ \<Rightarrow> Inl UnpicklingError)
      else if c = CHR 0x85 then
        (case st of
           Val a # st' \<Rightarrow> Inr (Next (Val (PTuple [a]) # st') 0)
         | _ \<Rightarrow> Inl UnpicklingError)
      else if c = CHR 0x86 then
        (case st of
           Val b # Val a # st' \<Rightarrow> Inr (Next (Val (PTuple [a, b]) # st') 0)
         | _ \<Rightarrow> Inl UnpicklingError)
      else if c = CHR 0x87 then
        (case st of
           Val z # Val b # Val a # st' \<Rightarrow> Inr (Next (Val (PTuple [a, b, z]) # st') 0)
         | _ \<Rightarrow> Inl UnpicklingError)
      else if c = CHR ''t'' then
        (case pop_mark [] st of
           Some (vs, st') \<Rightarrow> Inr (Next (Val (PTuple vs) # st') 0)
         | None \<Rightarrow> Inl UnpicklingError)
      else Inl UnpicklingError)"

fun pk_run :: "item list \<Rightarrow> bytes \<Rightarrow> exn + pyval" where
  "pk_run st [] = Inl EOFError"
| "pk_run st (c # bs) =
     (case pk_step st c bs of
        Inl e \<Rightarrow> Inl e
      | Inr (Halt v) \<Rightarrow> Inr v
      | Inr (Next st' k) \<Rightarrow> pk_run st' (drop k bs))"

definition pk_loads :: "bytes \<Rightarrow> exn + pyval" where
  "pk_loads bs = pk_run [] bs"

section \<open>The peer's side of the datagram\<close>

fun py_join :: "'a list \<Rightarrow> 'a list list \<Rightarrow> 'a list" where
  "py_join sep [] = []"
| "py_join sep [p] = p"
| "py_join sep (p # q # ps) = p @ sep @ py_join sep (q # ps)"

text \<open>
  Modelled from the spec: the function \<open>pack\<close> that builds the reply datagrams is code of
  the peer, which is not among the sources; \<open>transport\<close> only unpacks. After section 4.1,
  \<open>pack\<close> joins the payloads with the inner delimiter and appends the outer delimiter once,
  and the empty sequence of payloads gives the datagram of length zero (the edge case of
  section 4.1), which unpacks to no payload (section 8).
\<close>

definition pack :: "bytes list \<Rightarrow> bytes" where
  "pack payloads =
     (if payloads = [] then [] else py_join INNER_DELIM payloads @ OUTER_DELIM)"

section \<open>Sample sessions\<close>

text \<open>The byte that both delimiters are made of.\<close>

definition bar :: char where
  "bar = CHR ''|''"

text \<open>
  A session after the handshake of scenario C, two queues of positions, and a peer that
  answers with one pickled update.
\<close>

definition alice :: pipe where
  "alice = (init_pipe ''host'' 9000)\<lparr>connected := True, username := Some ''bob'',
     udp_password := Some 42, game_port := Some 5005\<rparr>"

definition four :: bridge where
  "four = \<lparr>forward = [PTuple [PInt 1], PTuple [PInt 2], PTuple [PInt 3], PTuple [PInt 4]],
            feedback = [], wire = []\<rparr>"

definition two :: bridge where
  "two = \<lparr>forward = [PTuple [PInt 1], PTuple [PInt 2]], feedback = [], wire = []\<rparr>"

definition echo_of :: "int \<Rightarrow> udp_env" where
  "echo_of i = \<lparr>on_sendto = None, on_recvfrom = Inr (pk_dumps (PList [PInt i]) @ OUTER_DELIM)\<rparr>"

section \<open>Properties\<close>

subsection \<open>Auxiliary facts\<close>

lemma discard_take_drop:
  "k \<le> length q \<Longrightarrow> discard k q = Some (take k q, drop k q)"
proof (induction k arbitrary: q)
  case 0
  show ?case by simp
next
  case (Suc k)
  then obtain x q' where q: "q = x # q'" by (cases q) auto
  with Suc show ?case by simp
qed

lemma split_from_nonempty: "split_from sep acc s \<noteq> []"
  by (induction sep acc s rule: split_from.induct) auto

lemma split_from_length_contains:
  "sep \<noteq> [] \<Longrightarrow> (1 < length (split_from sep acc s)) = contains sep s"
proof (induction sep acc s rule: split_from.induct)
  case (1 sep acc)
  then show ?case by simp
next
  case (2 sep acc x xs)
  show ?case
  proof (cases "take (length sep) (x # xs) = sep")
    case True
    have "split_from sep [] (drop (length sep) (x # xs)) \<noteq> []"
      by (rule split_from_nonempty)
    then have "0 < length (split_from sep [] (drop (length sep) (x # xs)))" by simp
    with True 2(3) show ?thesis by simp
  next
    case False
    with 2 show ?thesis by simp
  qed
qed

lemma unpack_None_iff: "(unpack data = None) = (\<not> contains OUTER_DELIM data)"
  using split_from_length_contains [of OUTER_DELIM "[]" data]
  by (simp add: unpack_def py_split_def Let_def OUTER_DELIM_def)

lemma receive_empty_iff:
  "(receive loads data = Inr (False, None)) = (\<not> contains OUTER_DELIM data)"
  using unpack_None_iff [of data]
  by (auto simp: receive_def split: option.splits sum.splits)

lemma scan_payload:
  assumes "\<not> contains [bar, bar] p" and "p = [] \<or> last p \<noteq> bar"
    and "sep = bar # bar # t"
  shows "split_from sep acc (p @ r) = split_from sep (rev p @ acc) r"
  using assms(1,2)
proof (induction p arbitrary: acc)
  case Nil
  show ?case by simp
next
  case (Cons c p)
  have no: "\<not> contains [bar, bar] p" using Cons.prems(1) by simp
  have lst: "p = [] \<or> last p \<noteq> bar" using Cons.prems(2) by (cases p) auto
  have miss: "take (length sep) ((c # p) @ r) \<noteq> sep"
  proof (cases "c = bar")
    case False
    then show ?thesis by (simp add: assms(3))
  next
    case True
    with Cons.prems(2) obtain d p' where p: "p = d # p'" by (cases p) auto
    with True Cons.prems(1) have "d \<noteq> bar" by auto
    with p show ?thesis by (simp add: assms(3))
  qed
  then have "split_from sep acc ((c # p) @ r) = split_from sep (c # acc) (p @ r)" by simp
  also have "\<dots> = split_from sep (rev p @ c # acc) r" by (rule Cons.IH [OF no lst])
  finally show ?case by simp
qed

lemma split_inner_join:
  assumes "\<forall>p \<in> set (q # ps). \<not> contains [bar, bar] p \<and> (p = [] \<or> last p \<noteq> bar)"
  shows "split_from [bar, bar] acc (py_join [bar, bar] (q # ps)) = (rev acc @ q) # ps"
  using assms
proof (induction ps arbitrary: acc q)
  case Nil
  then have "split_from [bar, bar] acc (q @ []) = split_from [bar, bar] (rev q @ acc) []"
    by (intro scan_payload [where t = "[]"]) auto
  then show ?case by simp
next
  case (Cons q' ps)
  let ?rest = "py_join [bar, bar] (q' # ps)"
  have "split_from [bar, bar] acc (q @ ([bar, bar] @ ?rest)) =
        split_from [bar, bar] (rev q @ acc) ([bar, bar] @ ?rest)"
    using Cons.prems by (intro scan_payload [where t = "[]"]) auto
  moreover have "split_from [bar, bar] [] ?rest = q' # ps"
    using Cons.IH [of q' "[]"] Cons.prems by simp
  ultimately show ?case by simp
qed

lemma split_outer_join:
  assumes "\<forall>p \<in> set (q # ps). p \<noteq> [] \<and> \<not> contains [bar, bar] p \<and> last p \<noteq> bar"
  shows "split_from [bar, bar, bar, bar] acc (py_join [bar, bar] (q # ps) @ [bar, bar, bar, bar]) =
         [rev acc @ py_join [bar, bar] (q # ps), []]"
  using assms
proof (induction ps arbitrary: acc q)
  case Nil
  then have "split_from [bar, bar, bar, bar] acc (q @ [bar, bar, bar, bar]) =
             split_from [bar, bar, bar, bar] (rev q @ acc) [bar, bar, bar, bar]"
    by (intro scan_payload [where t = "[bar, bar]"]) auto
  then show ?case by simp
next
  case (Cons q' ps)
  let ?rest = "py_join [bar, bar] (q' # ps) @ [bar, bar, bar, bar]"
  have q': "q' \<noteq> []" "\<not> contains [bar, bar] q'" "last q' \<noteq> bar"
    using Cons.prems by auto
  have 1: "split_from [bar, bar, bar, bar] acc (q @ ([bar, bar] @ ?rest)) =
        split_from [bar, bar, bar, bar] (rev q @ acc) ([bar, bar] @ ?rest)"
    using Cons.prems by (intro scan_payload [where t = "[bar, bar]"]) auto
  obtain c u where qc: "q' = c # u" using q'(1) by (cases q') auto
  have step: "split_from [bar, bar, bar, bar] (rev q @ acc) ([bar, bar] @ ?rest) =
        split_from [bar, bar, bar, bar] (bar # bar # rev q @ acc) ?rest"
  proof (cases "c = bar")
    case False
    then show ?thesis using qc by (cases ps) auto
  next
    case True
    with q'(3) qc obtain d u' where u: "u = d # u'" by (cases u) auto
    with True q'(2) qc have "d \<noteq> bar" by auto
    then show ?thesis using qc u by (cases ps) auto
  qed
  have "split_from [bar, bar, bar, bar] (bar # bar # rev q @ acc) ?rest =
        [rev (bar # bar # rev q @ acc) @ py_join [bar, bar] (q' # ps), []]"
    using Cons.IH [of q' "bar # bar # rev q @ acc"] Cons.prems by simp
  with 1 step show ?case by simp
qed

lemma unpack_pack_plain:
  assumes "P \<noteq> []"
    and "\<forall>p \<in> set P. p \<noteq> [] \<and> \<not> contains INNER_DELIM p \<and> last p \<noteq> CHR ''|''"
  shows "unpack (pack P) = Some P"
proof -
  obtain q ps where P: "P = q # ps" using assms(1) by (cases P) auto
  have a: "\<forall>p \<in> set (q # ps). p \<noteq> [] \<and> \<not> contains [bar, bar] p \<and> last p \<noteq> bar"
    using assms(2) P by (simp add: INNER_DELIM_def bar_def)
  then have b: "\<forall>p \<in> set (q # ps). \<not> contains [bar, bar] p \<and> (p = [] \<or> last p \<noteq> bar)"
    by blast
  have o: "py_split OUTER_DELIM (pack P) = [py_join INNER_DELIM P, []]"
    using split_outer_join [OF a, of "[]"]
    by (simp add: py_split_def pack_def OUTER_DELIM_def INNER_DELIM_def bar_def P)
  have i: "py_split INNER_DELIM (py_join INNER_DELIM P) = P"
    using split_inner_join [OF b, of "[]"]
    by (simp add: py_split_def INNER_DELIM_def bar_def P)
  show ?thesis by (simp add: unpack_def o i)
qed

lemma two_cycles:
  "networking pk_dumps pk_loads alice [echo_of 7, echo_of 8] two =
     Running \<lparr>forward = [],
       feedback = [(True, Some [PList [PInt 7]]), (True, Some [PList [PInt 8]])],
       wire = [frame pk_dumps alice [PInt 1], frame pk_dumps alice [PInt 2]]\<rparr>"
  by code_simp

subsection \<open>The serializer reads back what it writes\<close>



lemma length_le_bytes [simp]: "length (le_bytes n v) = n"
  by (induction n arbitrary: v) auto


























subsection \<open>The bridge loop\<close>

text \<open>
  Claim C1. A cycle of \<open>networking\<close> that starts with \<open>n\<close> entries on \<open>forward\<close>, \<open>n\<close> at
  least 3, reads and throws away the \<open>n - 2\<close> oldest entries, then reads one more entry,
  the entry enqueued as number \<open>n - 1\<close>, and leaves the newest entry alone on the queue.
  When \<open>sendto\<close> returns, the cycle has sent exactly one datagram: the frame of that
  entry.
\<close>

theorem drain_keeps_two:
  assumes "3 \<le> length (forward b)"
    and "py_list (forward b ! (length (forward b) - 2)) = Inr data"
    and "on_sendto env = None"
  shows "drain (forward b) =
           Some (take (length (forward b) - 2) (forward b),
                 forward b ! (length (forward b) - 2), [last (forward b)]) \<and>
         forward (bridge_of (networking_cycle dumps loads udp env b)) = [last (forward b)] \<and>
         wire (bridge_of (networking_cycle dumps loads udp env b)) =
           wire b @ [frame dumps udp data]"
proof -
  let ?q = "forward b"
  let ?k = "length ?q - 2"
  have k: "nat (int (length ?q) - 2) = ?k" by simp
  have d: "discard ?k ?q = Some (take ?k ?q, drop ?k ?q)"
    by (rule discard_take_drop) simp
  have s: "Suc ?k = length ?q - 1" using assms(1) by simp
  have "drop ?k ?q = [?q ! ?k, ?q ! (Suc ?k)]"
    using assms(1) by (simp add: Cons_nth_drop_Suc [symmetric] Suc_diff_Suc)
  moreover have "?q ! (Suc ?k) = last ?q"
    using assms(1) unfolding s by (subst last_conv_nth) auto
  ultimately have dr: "drain ?q = Some (take ?k ?q, ?q ! ?k, [last ?q])"
    using d k by (simp add: drain_def Let_def)
  show ?thesis
    using assms(2,3) dr
    by (auto simp: networking_cycle_def transport_def Let_def split: sum.splits)
qed

text \<open>
  A queue of four positions: the first two are dropped, the third is sent, the fourth
  stays.
\<close>

theorem drain_keeps_two_witness:
  "drain (forward four) = Some ([PTuple [PInt 1], PTuple [PInt 2]], PTuple [PInt 3], [PTuple [PInt 4]]) \<and>
   forward (bridge_of (networking_cycle pk_dumps pk_loads alice
      \<lparr>on_sendto = None, on_recvfrom = Inr []\<rparr> four)) = [PTuple [PInt 4]] \<and>
   wire (bridge_of (networking_cycle pk_dumps pk_loads alice
      \<lparr>on_sendto = None, on_recvfrom = Inr []\<rparr> four)) = [frame pk_dumps alice [PInt 3]]"
  using drain_keeps_two [of four "[PInt 3]" "\<lparr>on_sendto = None, on_recvfrom = Inr []\<rparr>"
      pk_dumps pk_loads alice]
  by (simp add: four_def)

text \<open>
  Claim C2, as the code has it. \<open>feedback\<close> is a FIFO queue without bound and nothing on
  it is overwritten: two cycles in a row that publish, with no read by \<open>stream\<close> between
  them, append their results in the order of the cycles behind whatever was unread before.
  The next read of \<open>stream\<close> takes the oldest unread result, which is the result of the
  first cycle when nothing was unread before, and leaves all the later ones, the result of
  the second cycle among them.
\<close>

theorem feedback_is_fifo:
  assumes "networking_cycle dumps loads udp env1 b = Running b1"
    and "networking_cycle dumps loads udp env2 b1 = Running b2"
  shows "\<exists>r1 r2. feedback b1 = feedback b @ [r1] \<and> feedback b2 = feedback b @ [r1, r2] \<and>
           snd (stream position b2) = Some (hd (feedback b @ [r1])) \<and>
           feedback (fst (stream position b2)) = tl (feedback b @ [r1, r2]) \<and>
           (feedback b = [] \<longrightarrow>
              snd (stream position b2) = Some r1 \<and>
              feedback (fst (stream position b2)) = [r2])"
proof -
  from assms(1) obtain r1 where 1: "feedback b1 = feedback b @ [r1]"
    by (auto simp: networking_cycle_def q_put_def Let_def
        split: option.splits sum.splits prod.splits)
  from assms(2) obtain r2 where 2: "feedback b2 = feedback b1 @ [r2]"
    by (auto simp: networking_cycle_def q_put_def Let_def
        split: option.splits sum.splits prod.splits)
  have 3: "feedback b2 = feedback b @ [r1, r2]" using 1 2 by simp
  have "snd (stream position b2) = Some (hd (feedback b @ [r1])) \<and>
        feedback (fst (stream position b2)) = tl (feedback b @ [r1, r2])"
    unfolding stream_def q_put_def Let_def using 3 by (cases "feedback b") simp_all
  then show ?thesis using 1 3 by auto
qed

text \<open>
  Two entries queued, two cycles answered with the batches \<open>[[7]]\<close> and \<open>[[8]]\<close>, then one
  read by \<open>stream\<close>.
\<close>

theorem feedback_is_fifo_witness:
  "snd (stream (PTuple [PInt 9])
     \<lparr>forward = [],
      feedback = [(True, Some [PList [PInt 7]]), (True, Some [PList [PInt 8]])],
      wire = [frame pk_dumps alice [PInt 1], frame pk_dumps alice [PInt 2]]\<rparr>) =
     Some (True, Some [PList [PInt 7]]) \<and>
   feedback (fst (stream (PTuple [PInt 9])
     \<lparr>forward = [],
      feedback = [(True, Some [PList [PInt 7]]), (True, Some [PList [PInt 8]])],
      wire = [frame pk_dumps alice [PInt 1], frame pk_dumps alice [PInt 2]]\<rparr>)) =
     [(True, Some [PList [PInt 8]])]"
proof -
  let ?b1 = "\<lparr>forward = [PTuple [PInt 2]], feedback = [(True, Some [PList [PInt 7]])],
      wire = [frame pk_dumps alice [PInt 1]]\<rparr>"
  let ?b2 = "\<lparr>forward = [],
      feedback = [(True, Some [PList [PInt 7]]), (True, Some [PList [PInt 8]])],
      wire = [frame pk_dumps alice [PInt 1], frame pk_dumps alice [PInt 2]]\<rparr>"
  have c1: "networking_cycle pk_dumps pk_loads alice (echo_of 7) two = Running ?b1"
    by code_simp
  have c2: "networking_cycle pk_dumps pk_loads alice (echo_of 8) ?b1 = Running ?b2"
    by code_simp
  show ?thesis
    using feedback_is_fifo [OF c1 c2, of "PTuple [PInt 9]"] by (auto simp: two_def)
qed

text \<open>
  Claim C2 as stated fails: after two cycles that publish the batches \<open>[[7]]\<close> and
  \<open>[[8]]\<close>, the read of \<open>stream\<close> gives the first batch, and both were on the queue.
\<close>

theorem feedback_overwrite_counterexample:
  "snd (stream (PTuple [PInt 9])
     (bridge_of (networking pk_dumps pk_loads alice [echo_of 7, echo_of 8] two))) =
     Some (True, Some [PList [PInt 7]]) \<and>
   feedback (bridge_of (networking pk_dumps pk_loads alice [echo_of 7, echo_of 8] two)) =
     [(True, Some [PList [PInt 7]]), (True, Some [PList [PInt 8]])]"
  unfolding two_cycles by (simp add: stream_def q_put_def)

text \<open>
  Claim C7, as the code has it. Neither \<open>networking\<close> nor \<open>transport\<close> has an exception
  handler: a cycle in which \<open>sendto\<close> or \<open>recvfrom\<close> raises ends the loop with that
  exception, whatever cycles would follow, and puts nothing on \<open>feedback\<close>.
\<close>

theorem socket_error_ends_loop:
  assumes "drain (forward b) = Some (ds, x, q)" and "py_list x = Inr data"
    and "on_sendto env = Some e \<or> (on_sendto env = None \<and> on_recvfrom env = Inl e)"
  shows "\<exists>b'. networking dumps loads udp (env # envs) b = Raised e b' \<and>
              feedback b' = feedback b"
  using assms
  by (auto simp: networking_cycle_def transport_def Let_def)

theorem socket_error_ends_loop_witness:
  "\<exists>b'. networking pk_dumps pk_loads alice
      [\<lparr>on_sendto = None, on_recvfrom = Inl OSError\<rparr>,
       \<lparr>on_sendto = None, on_recvfrom = Inr []\<rparr>]
      \<lparr>forward = [PTuple [PInt 1, PInt 2]], feedback = [], wire = []\<rparr> = Raised OSError b' \<and>
      feedback b' = []"
  using socket_error_ends_loop [of "\<lparr>forward = [PTuple [PInt 1, PInt 2]], feedback = [], wire = []\<rparr>"
      "[]" "PTuple [PInt 1, PInt 2]" "[]" "[PInt 1, PInt 2]"
      "\<lparr>on_sendto = None, on_recvfrom = Inl OSError\<rparr>" OSError pk_dumps pk_loads alice
      "[\<lparr>on_sendto = None, on_recvfrom = Inr []\<rparr>]"]
  by (simp add: drain_def)

text \<open>
  Claim C7 as stated fails: with \<open>sendto\<close> raising in the first of two cycles, the loop
  is left in the first cycle and the second entry is never sent.
\<close>

theorem socket_error_counterexample:
  "networking pk_dumps pk_loads alice
      [\<lparr>on_sendto = Some OSError, on_recvfrom = Inr []\<rparr>,
       \<lparr>on_sendto = None, on_recvfrom = Inr []\<rparr>]
      \<lparr>forward = [PTuple [PInt 1, PInt 2], PTuple [PInt 3, PInt 4]], feedback = [], wire = []\<rparr> =
   Raised OSError \<lparr>forward = [PTuple [PInt 3, PInt 4]], feedback = [], wire = []\<rparr>"
  by (simp add: networking_cycle_def drain_def transport_def)

subsection \<open>The datagram transport\<close>

text \<open>
  Claim C3. When the datagram is sent and the reply packs zero payloads, which is the
  datagram of length zero, \<open>transport\<close> returns (false, none): it neither raises nor
  returns data. More generally it returns (false, none) exactly when the reply, cut to
  2000 bytes, does not contain the outer delimiter.
\<close>

theorem transport_empty_batch:
  assumes "on_sendto env = None" and "on_recvfrom env = Inr data"
  shows "(data = pack [] \<longrightarrow>
            snd (transport dumps loads env p game_data) = Inr (False, None)) \<and>
         ((snd (transport dumps loads env p game_data) = Inr (False, None)) =
            (\<not> contains OUTER_DELIM (take 2000 data)))"
  using assms by (simp add: transport_def receive_empty_iff pack_def OUTER_DELIM_def)

text \<open>Scenario D: the session of scenario C sends an update and the peer answers nothing.\<close>

theorem transport_empty_batch_witness:
  "pack [] = [] \<and>
   snd (transport pk_dumps pk_loads \<lparr>on_sendto = None, on_recvfrom = Inr (pack [])\<rparr>
        alice [PInt 1]) = Inr (False, None)"
  using transport_empty_batch [of "\<lparr>on_sendto = None, on_recvfrom = Inr (pack [])\<rparr>" "pack []"
      pk_dumps pk_loads alice "[PInt 1]"]
  by (simp add: pack_def)

text \<open>
  Claim C6, as the code has it. For every non-empty sequence of payloads that are not
  empty, do not contain the inner delimiter (so neither the outer one) and do not end with
  the byte \<open>|\<close>, unpacking the packed datagram gives the payloads back in their order.
\<close>

theorem unpack_pack_inverse:
  assumes "P \<noteq> []"
    and "\<forall>p \<in> set P. p \<noteq> [] \<and> \<not> contains INNER_DELIM p \<and> last p \<noteq> CHR ''|''"
  shows "unpack (pack P) = Some P"
  using assms by (rule unpack_pack_plain)

theorem unpack_pack_inverse_witness:
  "unpack (pack [''ab'', ''|c'', ''d|e'']) = Some [''ab'', ''|c'', ''d|e'']"
  using unpack_pack_inverse [of "[''ab'', ''|c'', ''d|e'']"]
  by (simp add: INNER_DELIM_def)

text \<open>
  Claim C6 as stated fails: the payload \<open>a|\<close> contains neither delimiter, but its last
  byte joins the outer delimiter and the payload comes back as \<open>a\<close>.
\<close>

theorem unpack_pack_counterexample:
  "\<not> contains INNER_DELIM ''a|'' \<and> \<not> contains OUTER_DELIM ''a|'' \<and>
   unpack (pack [''a|'']) = Some [''a'']"
  by (simp add: INNER_DELIM_def OUTER_DELIM_def unpack_def pack_def py_split_def)




subsection \<open>The session client\<close>

lemma login_connected:
  assumes "connected p \<or> on_connect env = None" and "on_send env = None"
    and "on_recv env = Inr reply"
  shows "snd (snd (login env entry room_name user p)) = Inr (login_reply entry (take 100 reply))"
  using assms by (auto simp: login_def connect_def Let_def)

text \<open>
  Claim C4. When the session is connected, or the connection succeeds, and the message is
  sent and one reply of at most 100 bytes arrives, \<open>login\<close> returns the pair that the
  grammar of the mode gives for the reply: under \<open>create\<close>, \<open>Rename\<close> gives (false, rename),
  \<open>Done\<close> gives (true, created) and anything else (false, invalid); under any other mode,
  \<open>Missing\<close> gives (false, missing), \<open>Full\<close> gives (false, full) and anything else
  (true, joined).
\<close>

theorem login_reply_grammar:
  assumes "connected p \<or> on_connect env = None" and "on_send env = None"
    and "on_recv env = Inr reply" and "length reply \<le> 100"
  shows "snd (snd (login env entry room_name user p)) =
     Inr (if entry = ''create'' then
            (if reply = ''Rename'' then (False, ''rename'')
             else if reply = ''Done'' then (True, ''created'')
             else (False, ''invalid''))
          else
            (if reply = ''Missing'' then (False, ''missing'')
             else if reply = ''Full'' then (False, ''full'')
             else (True, ''joined'')))"
proof -
  have "take 100 reply = reply" using assms(4) by simp
  then show ?thesis
    using login_connected [OF assms(1-3), of entry room_name user]
    by (simp add: login_reply_def)
qed

text \<open>Scenario A: \<open>create\<close> of \<open>room1\<close> by \<open>alice\<close>, answered by \<open>Done\<close>.\<close>

theorem login_reply_grammar_witness:
  "snd (snd (login \<lparr>on_connect = None, on_send = None, on_recv = Inr ''Done''\<rparr>
       ''create'' ''room1'' ''alice'' (init_pipe ''host'' 9000))) = Inr (True, ''created'')"
  using login_reply_grammar [of "init_pipe ''host'' 9000"
      "\<lparr>on_connect = None, on_send = None, on_recv = Inr ''Done''\<rparr>" "''Done''"
      "''create''" "''room1''" "''alice''"]
  by simp

text \<open>
  Claim C5, as the code has it. For every inbound message whose first field between
  double commas is \<open>Start\<close> and whose second and third fields are there and are integers
  that \<open>int\<close> accepts, \<open>await_response\<close> stores the second field as the port of the
  datagram endpoint and the third as the shared secret, and returns all the fields.
\<close>

theorem await_start_stores:
  assumes "py_decode (take 1000 raw) = Inr text"
    and "py_split '',,'' text = data"
    and "hd data = ''Start''"
    and "py_index data 1 = Inr f1" and "py_int f1 = Inr gp"
    and "py_index data 2 = Inr f2" and "py_int f2 = Inr pw"
  shows "await_response (Inr raw) p =
     (p\<lparr>game_port := Some gp, udp_password := Some pw\<rparr>, Inr (map PStr data))"
  using assms by (simp add: await_response_def await_body_def Let_def)

text \<open>Scenario C: the message \<open>Start,,5005,,42\<close> sets the port 5005 and the secret 42.\<close>

theorem await_start_stores_witness:
  "await_response (Inr ''Start,,5005,,42'') (init_pipe ''host'' 9000) =
     ((init_pipe ''host'' 9000)\<lparr>game_port := Some 5005, udp_password := Some 42\<rparr>,
      Inr [PStr ''Start'', PStr ''5005'', PStr ''42''])"
proof -
  have h1: "py_decode (take 1000 ''Start,,5005,,42'') = Inr ''Start,,5005,,42''"
    by (simp add:)
  have h2: "py_split '',,'' ''Start,,5005,,42'' = [''Start'', ''5005'', ''42'']"
    by (simp add: py_split_def)
  have h3: "hd [''Start'', ''5005'', ''42''] = ''Start''" by simp
  have h4: "py_index [''Start'', ''5005'', ''42''] 1 = Inr ''5005''"
    by (simp add: py_index_def)
  have h5: "py_int ''5005'' = Inr 5005"
    by (simp add: py_int_def strip_def is_space_def is_digit_def)
  have h6: "py_index [''Start'', ''5005'', ''42''] 2 = Inr ''42''"
    by (simp add: py_index_def)
  have h7: "py_int ''42'' = Inr 42"
    by (simp add: py_int_def strip_def is_space_def is_digit_def)
  show ?thesis
    using await_start_stores [OF h1 h2 h3 h4 h5 h6 h7, of "init_pipe ''host'' 9000"]
    by simp
qed

text \<open>
  Claim C5 as stated fails: the first field of \<open>Start,,port,,42\<close> is \<open>Start\<close>, but the second
  has no integer value; \<open>await_response\<close> raises and stores neither port nor secret.
\<close>

theorem await_start_counterexample:
  "hd (py_split '',,'' ''Start,,port,,42'') = ''Start'' \<and>
   await_response (Inr ''Start,,port,,42'') alice = (alice, Inl ValueError)"
  by (simp add: await_response_def await_body_def py_split_def py_index_def
      py_int_def strip_def is_space_def is_digit_def)

text \<open>
  Claim C10. \<open>await_response\<close> catches only the connection abort. The message
  \<open>Start,,abc,,42\<close> leaves it with a \<open>ValueError\<close>, and the message \<open>Start,,5005\<close> with an
  \<open>IndexError\<close> after the port has been set; neither returns the sentinel \<open>[False]\<close>.
\<close>

theorem await_response_unhandled:
  "await_response (Inr ''Start,,abc,,42'') p = (p, Inl ValueError) \<and>
   await_response (Inr ''Start,,5005'') p = (p\<lparr>game_port := Some 5005\<rparr>, Inl IndexError)"
  by (simp add: await_response_def await_body_def py_split_def py_index_def
      py_int_def strip_def is_space_def is_digit_def)

text \<open>
  Claim C8, as the code has it. \<open>connect\<close> does not look at the flag \<open>connected\<close>: on a
  connected session it calls the socket again, leaves every field as it was, and returns
  true when the call returns, false when it raises a \<open>ConnectionError\<close>, and raises
  whatever else the socket raises. It is \<open>login\<close> that skips \<open>connect\<close> on a connected
  session.
\<close>

theorem connect_when_connected:
  assumes "connected p"
  shows "fst (connect conn p) = p \<and>
         snd (connect conn p) =
           (case conn of
              None \<Rightarrow> Inr True
            | Some e \<Rightarrow> if is_ConnectionError e then Inr False else Inl e) \<and>
         login (env\<lparr>on_connect := conn\<rparr>) entry room_name user p =
           login env entry room_name user p"
  using assms by (simp add: connect_def login_def Let_def split: option.splits)

theorem connect_when_connected_witness:
  "fst (connect None alice) = alice \<and> snd (connect None alice) = Inr True \<and>
   login \<lparr>on_connect = None, on_send = None, on_recv = Inr ''Full''\<rparr> ''join'' ''game3'' ''bob'' alice =
   login \<lparr>on_connect = Some OSError, on_send = None, on_recv = Inr ''Full''\<rparr> ''join'' ''game3'' ''bob'' alice"
  using connect_when_connected [of alice None
      "\<lparr>on_connect = Some OSError, on_send = None, on_recv = Inr ''Full''\<rparr>"
      "''join''" "''game3''" "''bob''"]
  by (simp add: alice_def init_pipe_def)

text \<open>
  Claim C8 as stated fails: a second \<open>connect\<close> raises when the socket call raises an
  error that is not a \<open>ConnectionError\<close>, as a stream socket that is already connected
  does.
\<close>

theorem connect_twice_counterexample:
  "connected alice \<and> snd (connect (Some OSError) alice) = Inl OSError"
  by (simp add: connect_def alice_def)

end
